theory Spec2Isabelle
  imports Main "HOL-Library.Sublist"
begin

section \<open>Strings of the host language\<close>

text \<open>
  Strings are character lists. Three characters have no literal form inside a string
  literal and are named here: the single quote, the backslash and the line feed.
\<close>

definition squote :: char where
  "squote = CHR 0x27"

definition backslash :: char where
  "backslash = CHR 0x5C"

definition newline :: char where
  "newline = CHR 0x0A"

text \<open>
  \<open>str.replace(old, new)\<close>: every occurrence of \<open>old\<close> is replaced, scanning from the
  left, a replaced occurrence never overlapping the next one. With an empty \<open>old\<close>
  Python puts \<open>new\<close> before every character and at the end.
\<close>

function replace_str :: "string \<Rightarrow> string \<Rightarrow> string \<Rightarrow> string" where
  "replace_str old new [] = (if old = [] then new else [])"
| "replace_str old new (c # cs) =
     (if old = [] then new @ c # replace_str old new cs
      else if prefix old (c # cs) then new @ replace_str old new (drop (length old) (c # cs))
      else c # replace_str old new cs)"
  by pat_completeness auto
termination
  by (relation "measure (\<lambda>(old, new, s). length s)") auto

text \<open>
  \<open>str.split(sep)\<close> for a non-empty separator: the pieces between the occurrences of
  \<open>sep\<close>, scanning from the left; \<open>piece\<close> is the piece being read. The source calls it
  with the separator \<open>', '\<close> only; Python rejects an empty separator, which is never
  passed here.
\<close>

function split_from :: "string \<Rightarrow> string \<Rightarrow> string \<Rightarrow> string list" where
  "split_from sep piece [] = [piece]"
| "split_from sep piece (c # cs) =
     (if sep \<noteq> [] \<and> prefix sep (c # cs)
      then piece # split_from sep [] (drop (length sep) (c # cs))
      else split_from sep (piece @ [c]) cs)"
  by pat_completeness auto
termination
  by (relation "measure (\<lambda>(sep, piece, s). length s)") auto

definition split_str :: "string \<Rightarrow> string \<Rightarrow> string list" where
  "split_str sep s = split_from sep [] s"

text \<open>\<open>os.path.join(a, b)\<close> of the POSIX path module, for two components.\<close>

definition path_join :: "string \<Rightarrow> string \<Rightarrow> string" where
  "path_join a b =
     (if prefix ''/'' b then b
      else if a = [] \<or> suffix ''/'' a then a @ b
      else a @ ''/'' @ b)"

text \<open>
  Decimal digits: the class \<open>\d\<close> on byte strings (the codes 48 to 57 of the characters
  0 to 9), \<open>int\<close> of a digit string, and the decimal text of an integer as \<open>str.format\<close>
  prints it.
\<close>

definition is_digit :: "char \<Rightarrow> bool" where
  "is_digit c = (48 \<le> (of_char c :: nat) \<and> (of_char c :: nat) \<le> 57)"

definition digit_val :: "char \<Rightarrow> int" where
  "digit_val c = int (of_char c) - 48"

definition int_of_digits :: "string \<Rightarrow> int" where
  "int_of_digits ds = foldl (\<lambda>a c. 10 * a + digit_val c) 0 ds"

definition digit_char :: "nat \<Rightarrow> char" where
  "digit_char n = char_of (48 + n)"

fun decimal :: "nat \<Rightarrow> string" where
  "decimal n = (if n < 10 then [digit_char n] else decimal (n div 10) @ [digit_char (n mod 10)])"

declare decimal.simps [simp del]

definition str_int :: "int \<Rightarrow> string" where
  "str_int i = (if i < 0 then ''-'' @ decimal (nat (- i)) else decimal (nat i))"

section \<open>The manager and the result of a command\<close>

record docker =
  container_name :: string
  timeout :: int
  docker_image :: string
  privilege :: bool
  combine_outputs :: bool

record process_result =
  out :: string
  err :: string
  return_code :: int

text \<open>
  The constructor. The container name is the prefix, a hyphen and a fresh identifier,
  which is drawn at random in the source and is a parameter here.
\<close>

definition docker_init :: "string \<Rightarrow> string \<Rightarrow> string \<Rightarrow> int \<Rightarrow> bool \<Rightarrow> bool \<Rightarrow> docker" where
  "docker_init uuid4 image_name name_prefix seconds privileged combined =
     \<lparr>container_name = name_prefix @ ''-'' @ uuid4, timeout = seconds, docker_image = image_name,
      privilege = privileged, combine_outputs = combined\<rparr>"

text \<open>
  Modelled from the spec: the class \<open>ProcessResult\<close> of \<open>docker.helpers\<close> is not among
  the sources. The specification gives it the output text, the error text, the numeric
  exit status and "a derived success flag (exit status == 0)".
\<close>

definition succeeded :: "process_result \<Rightarrow> bool" where
  "succeeded r = (return_code r = 0)"

text \<open>
  The primitive \<open>execute\<close> of \<open>docker.helpers\<close> runs a command line on the host. It is
  a parameter of everything below: a function from the state of the outside world and
  a command line to the captured result and the next state of the world. It always
  returns a result; a failure of the primitive itself is not modelled.
\<close>

type_synonym 'w executor = "'w \<Rightarrow> string \<Rightarrow> process_result \<times> 'w"

section \<open>The path resolver\<close>

definition get_working_directory :: "string \<Rightarrow> string" where
  "get_working_directory working_directory =
     (if prefix ''/'' working_directory \<or> prefix ''~/'' working_directory
      then working_directory
      else ''~/'' @ working_directory)"

section \<open>Running a command\<close>

text \<open>The command line that \<open>run\<close> hands to \<open>execute\<close>.\<close>

definition exec_command :: "docker \<Rightarrow> string \<Rightarrow> string \<Rightarrow> string" where
  "exec_command self command working_directory =
     (let working_directory = get_working_directory working_directory;
          command = replace_str [squote] ''\"'' command;
          command_string = ''cd '' @ working_directory @ '' && '' @ command
                           @ (if combine_outputs self then '' 2>&1'' else [])
      in ''docker exec -i '' @ container_name self @ '' bash -c '' @ [squote]
         @ command_string @ '' ;  echo \"--return-$?--\"'' @ [squote])"

text \<open>
  The text that the suffix \<open>echo "--return-$?--"\<close> of the command line prints, before the
  line feed that \<open>echo\<close> adds, when the shell puts the status text in the place of
  \<open>$?\<close>.
\<close>

definition sentinel :: "string \<Rightarrow> string" where
  "sentinel status = ''--return-'' @ status @ ''--''"

text \<open>
  The pattern \<open>(?:\\n)?--return-(\d+)--$\<close>. In the raw pattern string \<open>\\n\<close> is an
  escaped backslash followed by the letter n, so the optional group matches those two
  characters, not a line feed. Without the multi-line flag \<open>$\<close> matches at the end of
  the string and just before a line feed that ends the string.

  \<open>sentinel_core\<close> matches \<open>--return-(\d+)--$\<close> at the start of its argument and
  \<open>sentinel_here\<close> the whole pattern; both return the matched text (group 0) and the
  digits (group 1). \<open>return_code_search\<close> is \<open>re.search\<close>: the match at the leftmost
  position that has one.
\<close>

definition sentinel_core :: "string \<Rightarrow> (string \<times> string) option" where
  "sentinel_core s =
     (if prefix ''--return-'' s then
        (let r = drop 9 s; ds = takeWhile is_digit r; rest = dropWhile is_digit r
         in if ds \<noteq> [] \<and> (rest = ''--'' \<or> rest = ''--'' @ [newline])
            then Some (''--return-'' @ ds @ ''--'', ds) else None)
      else None)"

definition sentinel_here :: "string \<Rightarrow> (string \<times> string) option" where
  "sentinel_here s =
     (if prefix [backslash, CHR ''n''] s then
        (case sentinel_core (drop 2 s) of
           Some (g0, g1) \<Rightarrow> Some ([backslash, CHR ''n''] @ g0, g1)
         | None \<Rightarrow> sentinel_core s)
      else sentinel_core s)"

fun return_code_search :: "string \<Rightarrow> (string \<times> string) option" where
  "return_code_search [] = sentinel_here []"
| "return_code_search (c # cs) =
     (case sentinel_here (c # cs) of
        Some m \<Rightarrow> Some m
      | None \<Rightarrow> return_code_search cs)"

text \<open>What \<open>run\<close> does with the result that \<open>execute\<close> returned.\<close>

definition parse_result :: "process_result \<Rightarrow> process_result" where
  "parse_result result =
     (case return_code_search (out result) of
        Some (g0, g1) \<Rightarrow>
          (let result = result\<lparr>return_code := int_of_digits g1\<rparr>;
               result = result\<lparr>out := replace_str g0 [] (out result)\<rparr>
           in if suffix [newline] (out result)
              then result\<lparr>out := take (length (out result) - 1) (out result)\<rparr>
              else result)
      | None \<Rightarrow> result)"

definition run :: "'w executor \<Rightarrow> docker \<Rightarrow> string \<Rightarrow> string \<Rightarrow> 'w \<Rightarrow> process_result \<times> 'w" where
  "run execute self command working_directory w =
     (let (result, w') = execute w (exec_command self command working_directory)
      in (parse_result result, w'))"

section \<open>Reading files and listing directories\<close>

definition read_file :: "'w executor \<Rightarrow> docker \<Rightarrow> string \<Rightarrow> 'w \<Rightarrow> string option \<times> 'w" where
  "read_file execute self path w =
     (let path = get_working_directory path;
          (result, w') = run execute self (''cat '' @ path) [] w
      in (if succeeded result then Some (out result) else None, w'))"

definition file_exist :: "'w executor \<Rightarrow> docker \<Rightarrow> string \<Rightarrow> 'w \<Rightarrow> bool \<times> 'w" where
  "file_exist execute self path w =
     (let path = get_working_directory path;
          (result, w') = run execute self (''test -f '' @ path) [] w
      in (return_code result = 0, w'))"

definition directory_exist :: "'w executor \<Rightarrow> docker \<Rightarrow> string \<Rightarrow> 'w \<Rightarrow> bool \<times> 'w" where
  "directory_exist execute self path w =
     (let path = get_working_directory path;
          (result, w') = run execute self (''test -d '' @ path) [] w
      in (return_code result = 0, w'))"

text \<open>
  The loop of \<open>list_files\<close> over the entries of the listing; \<open>result\<close> is the list built
  so far. The directory check runs only for an entry that passed the file check, as
  \<open>and\<close> evaluates its right operand only then.
\<close>

fun list_files_loop ::
  "'w executor \<Rightarrow> docker \<Rightarrow> string \<Rightarrow> string list \<Rightarrow> string list \<Rightarrow> 'w \<Rightarrow> string list \<times> 'w" where
  "list_files_loop execute self path [] result w = (result, w)"
| "list_files_loop execute self path (file_path # rest) result w =
     (let full_path = path_join path file_path;
          (is_file, w1) = file_exist execute self full_path w
      in if is_file then
           (let (is_dir, w2) = directory_exist execute self full_path w1
            in list_files_loop execute self path rest
                 (if \<not> is_dir then result @ [file_path] else result) w2)
         else list_files_loop execute self path rest result w1)"

definition list_files :: "'w executor \<Rightarrow> docker \<Rightarrow> string \<Rightarrow> 'w \<Rightarrow> string list \<times> 'w" where
  "list_files execute self path w =
     (let path = get_working_directory path;
          (listing, w') = run execute self (''ls -m '' @ path) [] w
      in list_files_loop execute self path (split_str '', '' (out listing)) [] w')"

section \<open>Starting and stopping the container\<close>

text \<open>
  A failure is either the error that \<open>start\<close> raises, with its message, or a failure
  \<open>Raised\<close> by the unit of work run inside the scope.
\<close>

datatype 'e failure = DockerUnavailableError string | Raised 'e

definition start :: "'w executor \<Rightarrow> docker \<Rightarrow> 'w \<Rightarrow> ('e failure + docker) \<times> 'w" where
  "start execute self w =
     (let command_string =
            (if privilege self then ''docker run -d --privileged --name '' else ''docker run -d --name '')
            @ container_name self @ '' '' @ docker_image self @ '' /bin/sleep '' @ str_int (timeout self);
          (result, w') = execute w command_string
      in if \<not> succeeded result
         then (Inl (DockerUnavailableError ''Starting the docker container failed.''), w')
         else (Inr self, w'))"

text \<open>\<open>stop\<close> waits two seconds first; time is not part of the model.\<close>

definition stop :: "'w executor \<Rightarrow> docker \<Rightarrow> 'w \<Rightarrow> docker \<times> 'w" where
  "stop execute self w =
     (let (killed, w1) = execute w (''docker kill '' @ container_name self);
          (removed, w2) = execute w1 (''docker rm '' @ container_name self)
      in (self, w2))"

definition docker_enter :: "'w executor \<Rightarrow> docker \<Rightarrow> 'w \<Rightarrow> ('e failure + docker) \<times> 'w" where
  "docker_enter execute self w = start execute self w"

text \<open>
  \<open>__exit__\<close> receives the failure that left the scope, if any. \<open>truthy\<close> is the truth
  value Python gives to the failure object in \<open>if exc_value\<close>. The function raises
  (\<open>Inl\<close>) or returns \<open>None\<close> (\<open>Inr ()\<close>).
\<close>

definition docker_exit ::
  "('e failure \<Rightarrow> bool) \<Rightarrow> 'w executor \<Rightarrow> docker \<Rightarrow> 'e failure option \<Rightarrow> 'w \<Rightarrow> ('e failure + unit) \<times> 'w" where
  "docker_exit truthy execute self exc_value w =
     (let (stopped, w') = stop execute self w
      in case exc_value of
           None \<Rightarrow> (Inr (), w')
         | Some e \<Rightarrow> if truthy e then (Inl e, w') else (Inr (), w'))"

text \<open>
  The statement \<open>with Docker(...) as docker: body\<close> of \<open>wrap\<close>, for a manager already
  constructed. A failure of \<open>__enter__\<close> leaves the statement at once. After the body,
  \<open>__exit__\<close> runs; a failure it raises leaves the statement, and since it returns
  \<open>None\<close> otherwise, a failure of the body is raised again.
\<close>

definition with_docker ::
  "('e failure \<Rightarrow> bool) \<Rightarrow> 'w executor \<Rightarrow> docker \<Rightarrow> (docker \<Rightarrow> 'w \<Rightarrow> ('e failure + 'a) \<times> 'w)
   \<Rightarrow> 'w \<Rightarrow> ('e failure + 'a) \<times> 'w" where
  "with_docker truthy execute self body w =
     (case docker_enter execute self w of
        (Inl e, w1) \<Rightarrow> (Inl e, w1)
      | (Inr docker, w1) \<Rightarrow>
          (case body docker w1 of
             (Inr v, w2) \<Rightarrow>
               (case docker_exit truthy execute self None w2 of
                  (Inl e', w3) \<Rightarrow> (Inl e', w3)
                | (Inr u, w3) \<Rightarrow> (Inr v, w3))
           | (Inl e, w2) \<Rightarrow>
               (case docker_exit truthy execute self (Some e) w2 of
                  (Inl e', w3) \<Rightarrow> (Inl e', w3)
                | (Inr u, w3) \<Rightarrow> (Inl e, w3))))"

section \<open>Digits and decimal text\<close>

lemma digit_char_is_digit: "k < 10 \<Longrightarrow> is_digit (digit_char k)"
  by (simp add: is_digit_def digit_char_def)

lemma digit_val_digit_char: "k < 10 \<Longrightarrow> digit_val (digit_char k) = int k"
  by (simp add: digit_val_def digit_char_def)

lemma decimal_digits: "c \<in> set (decimal n) \<Longrightarrow> is_digit c"
proof (induction n arbitrary: c rule: decimal.induct)
  case (1 n)
  show ?case
  proof (cases "n < 10")
    case True
    with "1.prems" show ?thesis
      by (simp add: decimal.simps [of n] digit_char_is_digit)
  next
    case False
    with "1.prems" "1.IH" show ?thesis
      by (auto simp: decimal.simps [of n] digit_char_is_digit)
  qed
qed

lemma decimal_nonempty: "decimal n \<noteq> []"
  by (simp add: decimal.simps [of n])

lemma int_of_digits_snoc: "int_of_digits (ds @ [c]) = 10 * int_of_digits ds + digit_val c"
  by (simp add: int_of_digits_def)

lemma int_of_digits_decimal: "int_of_digits (decimal n) = int n"
proof (induction n rule: decimal.induct)
  case (1 n)
  show ?case
  proof (cases "n < 10")
    case True
    then show ?thesis
      by (simp add: decimal.simps [of n] int_of_digits_def digit_val_digit_char)
  next
    case False
    then have "int_of_digits (decimal n) = 10 * int (n div 10) + int (n mod 10)"
      using "1.IH" by (simp add: decimal.simps [of n] int_of_digits_snoc digit_val_digit_char)
    then show ?thesis by (simp add: zdiv_int zmod_int)
  qed
qed

section \<open>Where the pattern matches\<close>

text \<open>
  The pattern is anchored at the end of the text, and the digits of a sentinel are
  enclosed by hyphens. So in a text that ends with a sentinel, with or without a final
  line feed, the only matches are that sentinel and that sentinel together with the
  characters backslash and n in front of it; the search returns the longer one when it
  is there.
\<close>

lemma minus_not_digit: "\<not> is_digit CHR ''-''"
  by (simp add: is_digit_def)

lemma takeWhile_digits_stop:
  "\<forall>c\<in>set ds. is_digit c \<Longrightarrow> takeWhile is_digit (ds @ CHR ''-'' # t) = ds"
  by (simp add: takeWhile_append2 minus_not_digit)

lemma dropWhile_digits_stop:
  "\<forall>c\<in>set ds. is_digit c \<Longrightarrow> dropWhile is_digit (ds @ CHR ''-'' # t) = CHR ''-'' # t"
  by (simp add: dropWhile_append2 minus_not_digit)

lemma sentinel_core_sentinel:
  assumes "ds \<noteq> []" and "\<forall>c\<in>set ds. is_digit c" and "t = [] \<or> t = [newline]"
  shows "sentinel_core (''--return-'' @ ds @ ''--'' @ t) = Some (''--return-'' @ ds @ ''--'', ds)"
  using assms by (auto simp: sentinel_core_def takeWhile_digits_stop dropWhile_digits_stop minus_not_digit)

lemma sentinel_core_SomeD:
  assumes "sentinel_core s = Some (g0, g1)"
  shows "g1 \<noteq> [] \<and> (\<forall>c\<in>set g1. is_digit c) \<and> g0 = ''--return-'' @ g1 @ ''--''
         \<and> (s = g0 \<or> s = g0 @ [newline])"
proof -
  from assms have p: "prefix ''--return-'' s"
    by (simp add: sentinel_core_def split: if_splits)
  then obtain r where s: "s = ''--return-'' @ r"
    by (auto elim: prefixE)
  have r: "r = takeWhile is_digit r @ dropWhile is_digit r"
    by simp
  from assms s have g1: "g1 = takeWhile is_digit r" and g0: "g0 = ''--return-'' @ g1 @ ''--''"
    and ne: "g1 \<noteq> []"
    and rest: "dropWhile is_digit r = ''--'' \<or> dropWhile is_digit r = ''--'' @ [newline]"
    by (auto simp: sentinel_core_def Let_def split: if_splits)
  from g1 have dig: "\<forall>c\<in>set g1. is_digit c"
    by (auto dest: set_takeWhileD)
  from rest r g1 have "r = g1 @ ''--'' \<or> r = g1 @ ''--'' @ [newline]"
    by metis
  with s g0 have "s = g0 \<or> s = g0 @ [newline]"
    by auto
  with ne dig g0 show ?thesis by blast
qed

lemma digits_then_minus_unique:
  assumes "\<forall>c\<in>set a. is_digit c" and "\<forall>c\<in>set b. is_digit c"
    and "a @ CHR ''-'' # x = b @ CHR ''-'' # y"
  shows "a = b \<and> x = y"
proof -
  have "takeWhile is_digit (a @ CHR ''-'' # x) = a" "takeWhile is_digit (b @ CHR ''-'' # y) = b"
    using assms(1,2) by (simp_all add: minus_not_digit)
  with assms(3) have "a = b" by simp
  with assms(3) show ?thesis by simp
qed

lemma sentinel_core_longer:
  assumes u: "u \<noteq> []" and ne: "ds \<noteq> []" and dig: "\<forall>c\<in>set ds. is_digit c"
    and t: "t = [] \<or> t = [newline]"
  shows "sentinel_core (u @ ''--return-'' @ ds @ ''--'' @ t) = None"
proof (rule ccontr)
  assume "sentinel_core (u @ ''--return-'' @ ds @ ''--'' @ t) \<noteq> None"
  then obtain g0 g1 where m: "sentinel_core (u @ ''--return-'' @ ds @ ''--'' @ t) = Some (g0, g1)"
    by auto
  from sentinel_core_SomeD [OF m] obtain t' where
    dig': "\<forall>c\<in>set g1. is_digit c" and t': "t' = [] \<or> t' = [newline]"
    and eq: "u @ ''--return-'' @ ds @ ''--'' @ t = ''--return-'' @ g1 @ ''--'' @ t'"
    by auto
  from eq have "rev (u @ ''--return-'' @ ds @ ''--'' @ t) = rev (''--return-'' @ g1 @ ''--'' @ t')"
    by simp
  with t t' have "rev ds @ CHR ''-'' # (''nruter--'' @ rev u) = rev g1 @ CHR ''-'' # ''nruter--''"
    by (auto simp: newline_def)
  moreover have "\<forall>c\<in>set (rev ds). is_digit c" "\<forall>c\<in>set (rev g1). is_digit c"
    using dig dig' by simp_all
  ultimately have "''nruter--'' @ rev u = ''nruter--''"
    using digits_then_minus_unique by blast
  with u show False by simp
qed

lemma sentinel_here_cases:
  assumes ne: "ds \<noteq> []" and dig: "\<forall>c\<in>set ds. is_digit c" and t: "t = [] \<or> t = [newline]"
  shows "sentinel_here (u @ ''--return-'' @ ds @ ''--'' @ t) =
           (if u = [] then Some (''--return-'' @ ds @ ''--'', ds)
            else if u = [backslash, CHR ''n'']
            then Some ([backslash, CHR ''n''] @ ''--return-'' @ ds @ ''--'', ds)
            else None)"
proof -
  note core = sentinel_core_sentinel [OF ne dig t]
  note longer = sentinel_core_longer [OF _ ne dig t]
  consider (empty) "u = []" | (two) "u = [backslash, CHR ''n'']"
    | (more) v where "u = backslash # CHR ''n'' # v" "v \<noteq> []"
    | (other) "u \<noteq> []" "\<not> prefix [backslash, CHR ''n''] u"
    by (cases u; cases "tl u") auto
  then show ?thesis
  proof cases
    case empty
    with core show ?thesis
      by (simp add: sentinel_here_def backslash_def)
  next
    case two
    with core show ?thesis
      by (simp add: sentinel_here_def)
  next
    case more
    with longer [of v] longer [of u] show ?thesis
      by (simp add: sentinel_here_def)
  next
    case other
    from other(2) have "\<not> prefix [backslash, CHR ''n''] (u @ ''--return-'' @ ds @ ''--'' @ t)"
      using other(1) by (cases u; cases "tl u") (auto simp: backslash_def)
    with longer [of u] other show ?thesis
      by (auto simp: sentinel_here_def)
  qed
qed

lemma return_code_search_tail:
  assumes ne: "ds \<noteq> []" and dig: "\<forall>c\<in>set ds. is_digit c" and t: "t = [] \<or> t = [newline]"
  shows "return_code_search (pre @ ''--return-'' @ ds @ ''--'' @ t) =
           Some ((if suffix [backslash, CHR ''n''] pre then [backslash, CHR ''n''] else [])
                 @ ''--return-'' @ ds @ ''--'', ds)"
proof (induction pre)
  case Nil
  from sentinel_here_cases [OF ne dig t, of "[]"] show ?case
    by simp
next
  case (Cons c pre)
  show ?case
  proof (cases "c # pre = [backslash, CHR ''n'']")
    case True
    with sentinel_here_cases [OF ne dig t, of "c # pre"] show ?thesis
      by simp
  next
    case False
    with sentinel_here_cases [OF ne dig t, of "c # pre"]
    have "sentinel_here ((c # pre) @ ''--return-'' @ ds @ ''--'' @ t) = None"
      by simp
    moreover from False have "suffix [backslash, CHR ''n''] (c # pre) = suffix [backslash, CHR ''n''] pre"
      by (auto simp: suffix_Cons)
    ultimately show ?thesis
      using Cons.IH by simp
  qed
qed

section \<open>Replacing text\<close>

lemma replace_str_char:
  "replace_str [a] [b] s = map (\<lambda>c. if c = a then b else c) s"
  by (induction s) auto

lemma replace_str_short:
  "length s < length old \<Longrightarrow> replace_str old new s = s"
proof (induction s)
  case Nil
  then show ?case by auto
next
  case (Cons c s)
  then have "\<not> prefix old (c # s)"
    by (auto dest: prefix_length_le)
  with Cons show ?case by auto
qed

lemma prefix_append_long:
  "length g \<le> length x \<Longrightarrow> prefix g (x @ t) = prefix g x"
  by (auto simp: prefix_append dest: prefix_length_le) 

lemma replace_str_last_only:
  assumes g: "g \<noteq> []"
    and H: "\<forall>i<length pre. \<not> prefix g (drop i (pre @ g))"
  shows "replace_str g new (pre @ g @ t) = pre @ new @ replace_str g new t"
  using H
proof (induction pre)
  case Nil
  from g obtain c cs where "g @ t = c # cs"
    by (cases g) auto
  with g show ?case
    by (cases g) auto
next
  case (Cons c pre)
  from Cons.prems have "\<not> prefix g ((c # pre) @ g)"
    by force
  then have np: "\<not> prefix g (c # pre @ g @ t)"
    using prefix_append_long [of g "(c # pre) @ g" t] by simp
  have "\<forall>i<length pre. \<not> prefix g (drop i (pre @ g))"
  proof (intro allI impI)
    fix i assume "i < length pre"
    then have "Suc i < length (c # pre)" by simp
    with Cons.prems have "\<not> prefix g (drop (Suc i) ((c # pre) @ g))" by blast
    then show "\<not> prefix g (drop i (pre @ g))" by simp
  qed
  with Cons.IH have "replace_str g new (pre @ g @ t) = pre @ new @ replace_str g new t"
    by simp
  with np g show ?case by simp
qed

section \<open>The path resolver: properties\<close>

text \<open>
  C5. The resolver returns the path unchanged exactly when the path begins with \<open>/\<close> or
  with \<open>~/\<close>, and otherwise returns \<open>~/\<close> followed by the path. It is a total function of
  the path alone.
\<close>

theorem get_working_directory_cases:
  "(get_working_directory p = p \<longleftrightarrow> prefix ''/'' p \<or> prefix ''~/'' p)
   \<and> (\<not> (prefix ''/'' p \<or> prefix ''~/'' p) \<longrightarrow> get_working_directory p = ''~/'' @ p)"
  by (simp add: get_working_directory_def)

theorem get_working_directory_cases_witness:
  "(get_working_directory ''/srv'' = ''/srv'') \<and> (get_working_directory ''~/srv'' = ''~/srv'')
   \<and> get_working_directory ''srv'' = ''~/'' @ ''srv''"
  using get_working_directory_cases [of "''/srv''"] get_working_directory_cases [of "''~/srv''"]
    get_working_directory_cases [of "''srv''"]
  by simp

text \<open>
  C10. The result of the resolver always begins with \<open>/\<close> or with \<open>~/\<close>, and resolving a
  resolved path returns it unchanged.
\<close>

theorem get_working_directory_idem:
  "(prefix ''/'' (get_working_directory p) \<or> prefix ''~/'' (get_working_directory p))
   \<and> get_working_directory (get_working_directory p) = get_working_directory p"
  by (simp add: get_working_directory_def)

section \<open>Recovering the exit status\<close>

lemma parse_result_tail:
  assumes ne: "ds \<noteq> []" and dig: "\<forall>c\<in>set ds. is_digit c" and t: "t = [] \<or> t = [newline]"
    and o: "out result = pre @ sentinel ds @ t"
  shows "return_code (parse_result result) = int_of_digits ds"
  using return_code_search_tail [OF ne dig t, of pre] o
  by (simp add: parse_result_def sentinel_def Let_def)

lemma sentinel_alone:
  assumes ne: "ds \<noteq> []" and dig: "\<forall>c\<in>set ds. is_digit c" and t: "t = [] \<or> t = [newline]"
    and o: "out result = sentinel ds @ t"
  shows "out (parse_result result) = []"
proof -
  have s: "return_code_search (out result) = Some (sentinel ds, ds)"
    using return_code_search_tail [OF ne dig t, of "[]"] o by (simp add: sentinel_def)
  have "replace_str (sentinel ds) [] ([] @ sentinel ds @ t) = [] @ [] @ replace_str (sentinel ds) [] t"
    by (rule replace_str_last_only) (simp_all add: sentinel_def)
  moreover have "replace_str (sentinel ds) [] t = t"
    using t by (intro replace_str_short) (auto simp: sentinel_def)
  ultimately have "replace_str (sentinel ds) [] (out result) = t"
    using o by simp
  with s t show ?thesis
    by (auto simp: parse_result_def Let_def suffix_def)
qed

lemma parse_result_empty: "out result = [] \<Longrightarrow> parse_result result = result"
  by (simp add: parse_result_def sentinel_here_def sentinel_core_def)

lemma decimal_255: "decimal 255 = ''255''"
  by code_simp

text \<open>
  C1. For every exit status \<open>N\<close>, so for each of 0 to 255, \<open>run\<close> of the command
  \<open>exit N\<close> returns a result whose exit status is \<open>N\<close> and whose output is empty, hence
  without any text of the form marker, digits, marker. What the shell sends back is
  not part of the program, so the statement covers the three answers it can give: the
  sentinel line for \<open>N\<close>, that line without its line feed, or no output at all with
  the status \<open>N\<close> reported by the transport itself (the shell has left at \<open>exit\<close>,
  before the sentinel was printed).
\<close>

theorem run_exit_status:
  assumes ex: "execute w (exec_command self (''exit '' @ decimal N) working_directory) = (result, w')"
    and o: "out result = sentinel (decimal N) @ [newline] \<or> out result = sentinel (decimal N)
            \<or> (out result = [] \<and> return_code result = int N)"
  shows "return_code (fst (run execute self (''exit '' @ decimal N) working_directory w)) = int N
         \<and> out (fst (run execute self (''exit '' @ decimal N) working_directory w)) = []
         \<and> (\<forall>u ds v. out (fst (run execute self (''exit '' @ decimal N) working_directory w))
                \<noteq> u @ sentinel ds @ v)"
proof -
  have r: "fst (run execute self (''exit '' @ decimal N) working_directory w) = parse_result result"
    using ex by (simp add: run_def)
  have "return_code (parse_result result) = int N \<and> out (parse_result result) = []"
  proof (cases "out result = []")
    case True
    with o have "return_code result = int N"
      by (auto simp: sentinel_def)
    with True show ?thesis
      by (simp add: parse_result_empty)
  next
    case False
    with o obtain t where t: "t = [] \<or> t = [newline]"
      and ot: "out result = [] @ sentinel (decimal N) @ t"
      by auto
    from parse_result_tail [OF decimal_nonempty _ t ot] decimal_digits
    have "return_code (parse_result result) = int N"
      by (simp add: int_of_digits_decimal)
    moreover from sentinel_alone [OF decimal_nonempty _ t] ot decimal_digits
    have "out (parse_result result) = []"
      by simp
    ultimately show ?thesis by simp
  qed
  with r show ?thesis
    by (simp add: sentinel_def)
qed

theorem run_exit_status_witness:
  "return_code (fst (run (\<lambda>w c. (\<lparr>out = ''--return-255--'' @ [newline], err = [], return_code = 0\<rparr>, w))
       (docker_init ''0001'' ''ubuntu'' ''dyn'' 3600 False False) (''exit '' @ decimal 255) [] (0::nat))) = 255
   \<and> out (fst (run (\<lambda>w c. (\<lparr>out = ''--return-255--'' @ [newline], err = [], return_code = 0\<rparr>, w))
       (docker_init ''0001'' ''ubuntu'' ''dyn'' 3600 False False) (''exit '' @ decimal 255) [] (0::nat))) = []"
  using run_exit_status [of "\<lambda>w c. (\<lparr>out = ''--return-255--'' @ [newline], err = [], return_code = 0\<rparr>, w)"
      "0::nat" "docker_init ''0001'' ''ubuntu'' ''dyn'' 3600 False False" 255 "[]"
      "\<lparr>out = ''--return-255--'' @ [newline], err = [], return_code = 0\<rparr>" 0]
  by (simp add: decimal_255 sentinel_def)

section \<open>Cleaning the output\<close>

text \<open>
  C2. The claim is that only the trailing sentinel is taken out of the output and that
  an earlier occurrence of the same text stays. The pattern finds the trailing
  sentinel, but the matched text is then removed with \<open>str.replace\<close>, which removes
  every occurrence of it. For the command below the shell prints the text
  \<open>--return-0--\<close>, a line \<open>foo\<close> and the sentinel line for status 0; the first line of
  the output is lost.
\<close>

theorem run_removes_earlier_sentinel_text:
  "run (\<lambda>w c. (\<lparr>out = ''--return-0--'' @ [newline] @ ''foo'' @ [newline] @ ''--return-0--'' @ [newline],
                 err = [], return_code = 0\<rparr>, w))
     (docker_init ''0001'' ''ubuntu'' ''dyn'' 3600 False False)
     ''echo \"--return-0--\"; echo foo'' [] (0::nat)
   = (\<lparr>out = [newline] @ ''foo'' @ [newline], err = [], return_code = 0\<rparr>, 0)"
  by (simp add: run_def parse_result_def sentinel_here_def sentinel_core_def backslash_def
      newline_def is_digit_def int_of_digits_def digit_val_def Let_def suffix_to_prefix)

text \<open>
  C3, as it is written, fails: the output \<open>foo\n\<close> of five characters, the last two
  being a backslash and the letter n, has no trailing line break, and from that output
  followed by the sentinel line \<open>run\<close> keeps \<open>foo\<close> only. The optional group of the
  pattern takes the two characters as part of the match.
\<close>

theorem run_truncates_backslash_n:
  "\<not> suffix [newline] (''foo'' @ [backslash, CHR ''n''])
   \<and> out (parse_result \<lparr>out = (''foo'' @ [backslash, CHR ''n'']) @ ''--return-0--'' @ [newline],
                           err = [], return_code = 0\<rparr>) = ''foo''
   \<and> ''foo'' \<noteq> ''foo'' @ [backslash, CHR ''n'']"
  by (simp add: parse_result_def sentinel_here_def sentinel_core_def backslash_def
      newline_def is_digit_def int_of_digits_def digit_val_def Let_def suffix_to_prefix)

text \<open>
  C3, amended. When the sentinel is found and the matched text is taken out, one
  trailing line break is removed if what remains ends in a line break, and nothing is
  removed otherwise. In particular, for an output \<open>stdout\<close> that ends neither in a line
  break nor in the characters backslash and n, and in which the sentinel text occurs
  nowhere before the sentinel itself, \<open>run\<close> returns \<open>stdout\<close> unchanged, whether the
  transport keeps the line feed after the sentinel (\<open>t = [newline]\<close>) or not.
\<close>

theorem strip_one_line_break:
  "(return_code_search (out result) = Some (g0, g1) \<longrightarrow>
      (suffix [newline] (replace_str g0 [] (out result)) \<longrightarrow>
         out (parse_result result) @ [newline] = replace_str g0 [] (out result))
      \<and> (\<not> suffix [newline] (replace_str g0 [] (out result)) \<longrightarrow>
         out (parse_result result) = replace_str g0 [] (out result)))
   \<and> (ds \<noteq> [] \<and> (\<forall>c\<in>set ds. is_digit c) \<and> (t = [] \<or> t = [newline])
      \<and> \<not> suffix [newline] stdout \<and> \<not> suffix [backslash, CHR ''n''] stdout
      \<and> (\<forall>i<length stdout. \<not> prefix (sentinel ds) (drop i (stdout @ sentinel ds)))
      \<and> out result' = stdout @ sentinel ds @ t
      \<longrightarrow> out (parse_result result') = stdout)"
proof (intro conjI impI)
  assume s: "return_code_search (out result) = Some (g0, g1)"
  {
    assume "suffix [newline] (replace_str g0 [] (out result))"
    then obtain xs where xs: "replace_str g0 [] (out result) = xs @ [newline]"
      by (auto simp: suffix_def)
    with s show "out (parse_result result) @ [newline] = replace_str g0 [] (out result)"
      by (simp add: parse_result_def Let_def)
  next
    assume "\<not> suffix [newline] (replace_str g0 [] (out result))"
    with s show "out (parse_result result) = replace_str g0 [] (out result)"
      by (simp add: parse_result_def Let_def)
  }
next
  assume a: "ds \<noteq> [] \<and> (\<forall>c\<in>set ds. is_digit c) \<and> (t = [] \<or> t = [newline])
      \<and> \<not> suffix [newline] stdout \<and> \<not> suffix [backslash, CHR ''n''] stdout
      \<and> (\<forall>i<length stdout. \<not> prefix (sentinel ds) (drop i (stdout @ sentinel ds)))
      \<and> out result' = stdout @ sentinel ds @ t"
  then have ne: "ds \<noteq> []" and dig: "\<forall>c\<in>set ds. is_digit c" and t: "t = [] \<or> t = [newline]"
    and nl: "\<not> suffix [newline] stdout" and bn: "\<not> suffix [backslash, CHR ''n''] stdout"
    and H: "\<forall>i<length stdout. \<not> prefix (sentinel ds) (drop i (stdout @ sentinel ds))"
    and o: "out result' = stdout @ sentinel ds @ t"
    by blast+
  have s: "return_code_search (out result') = Some (sentinel ds, ds)"
    using return_code_search_tail [OF ne dig t, of stdout] o bn by (simp add: sentinel_def)
  have "replace_str (sentinel ds) [] (stdout @ sentinel ds @ t)
          = stdout @ [] @ replace_str (sentinel ds) [] t"
    using H by (intro replace_str_last_only) (simp_all add: sentinel_def)
  moreover have "replace_str (sentinel ds) [] t = t"
    using t by (intro replace_str_short) (auto simp: sentinel_def)
  ultimately have r: "replace_str (sentinel ds) [] (out result') = stdout @ t"
    using o by simp
  from t show "out (parse_result result') = stdout"
  proof
    assume "t = []"
    with s r nl show ?thesis
      by (simp add: parse_result_def Let_def)
  next
    assume "t = [newline]"
    with s r show ?thesis
      by (simp add: parse_result_def Let_def suffix_def)
  qed
qed

theorem strip_one_line_break_witness:
  "out (parse_result \<lparr>out = ''abc'' @ [newline] @ ''--return-0--'', err = [], return_code = 7\<rparr>)
       @ [newline] = ''abc'' @ [newline]
   \<and> \<not> suffix [newline] ''abc'' \<and> \<not> suffix [backslash, CHR ''n''] ''abc''
   \<and> out (parse_result \<lparr>out = ''abc'' @ sentinel ''0'' @ [newline], err = [], return_code = 7\<rparr>)
       = ''abc''"
proof -
  let ?r = "\<lparr>out = ''abc'' @ [newline] @ ''--return-0--'', err = [], return_code = 7\<rparr>"
  let ?r' = "\<lparr>out = ''abc'' @ sentinel ''0'' @ [newline], err = [], return_code = 7\<rparr>"
  note T = strip_one_line_break [of ?r "''--return-0--''" "''0''" "''0''" "[newline]" "''abc''" ?r']
  have s: "return_code_search (out ?r) = Some (''--return-0--'', ''0'')"
    by (simp add: sentinel_here_def sentinel_core_def backslash_def newline_def is_digit_def)
  have r: "replace_str ''--return-0--'' [] (out ?r) = ''abc'' @ [newline]"
    by (simp add: newline_def)
  then have e: "suffix [newline] (replace_str ''--return-0--'' [] (out ?r))"
    by (simp add: suffix_def)
  from T s e have "out (parse_result ?r) @ [newline] = replace_str ''--return-0--'' [] (out ?r)"
    by blast
  with r have p1: "out (parse_result ?r) @ [newline] = ''abc'' @ [newline]"
    by simp
  have h: "\<forall>i<length ''abc''. \<not> prefix (sentinel ''0'') (drop i (''abc'' @ sentinel ''0''))"
    by (simp add: sentinel_def All_less_Suc)
  have d: "''0'' \<noteq> []" "\<forall>c\<in>set ''0''. is_digit c" "[newline] = [] \<or> [newline] = [newline]"
    by (simp_all add: is_digit_def)
  have n: "\<not> suffix [newline] ''abc''" "\<not> suffix [backslash, CHR ''n''] ''abc''"
    by (simp_all add: suffix_to_prefix newline_def backslash_def)
  have o: "out ?r' = ''abc'' @ sentinel ''0'' @ [newline]"
    by simp
  from T h d n o have "out (parse_result ?r') = ''abc''"
    by blast
  with p1 n show ?thesis
    by blast
qed

text \<open>
  C4. When the pattern is not found in the output that the transport returned, \<open>run\<close>
  returns the result of the transport as it is: the same exit status, the same output
  and the same error text.
\<close>

theorem run_sentinel_not_found:
  assumes "execute w (exec_command self command working_directory) = (result, w')"
    and "return_code_search (out result) = None"
  shows "run execute self command working_directory w = (result, w')"
  using assms by (simp add: run_def parse_result_def)

theorem run_sentinel_not_found_witness:
  "return_code_search ''bash: no such container'' = None
   \<and> run (\<lambda>w c. (\<lparr>out = ''bash: no such container'', err = [], return_code = 126\<rparr>, w))
       (docker_init ''0001'' ''ubuntu'' ''dyn'' 3600 False False) ''ls'' [] (0::nat)
     = (\<lparr>out = ''bash: no such container'', err = [], return_code = 126\<rparr>, 0)"
proof -
  have s: "return_code_search ''bash: no such container'' = None"
    by (simp add: sentinel_here_def sentinel_core_def backslash_def)
  with run_sentinel_not_found [of "\<lambda>w c. (\<lparr>out = ''bash: no such container'', err = [], return_code = 126\<rparr>, w)"
      "0::nat" "docker_init ''0001'' ''ubuntu'' ''dyn'' 3600 False False" "''ls''" "[]"
      "\<lparr>out = ''bash: no such container'', err = [], return_code = 126\<rparr>" 0]
  show ?thesis
    by simp
qed

section \<open>Composing the command line\<close>

text \<open>
  C6, as it is written, fails. The command \<open>echo 'a"b'\<close> is well-formed and has one
  pair of single quotes around a double quote. After the rewriting the command is
  \<open>echo "a"b"\<close>, and the text between the single quotes of \<open>bash -c\<close> has five double
  quotes and neither a single quote nor a backslash: the double quotes do not pair
  up, and the quote that opens the sentinel text closes the one left open by the
  command. A shell answers this text with a syntax error, no output and status 2;
  from that answer \<open>run\<close> recovers no sentinel and returns the answer as it is.
\<close>

theorem exec_command_unbalanced_quotes:
  "exec_command (docker_init ''0001'' ''ubuntu'' ''dyn'' 3600 False False)
       (''echo '' @ [squote] @ ''a\"b'' @ [squote]) []
     = ''docker exec -i dyn-0001 bash -c '' @ [squote]
       @ ''cd ~/ && echo \"a\"b\" ;  echo \"--return-$?--\"'' @ [squote]
   \<and> count_list ''cd ~/ && echo \"a\"b\" ;  echo \"--return-$?--\"'' (CHR 0x22) = 5
   \<and> squote \<notin> set ''cd ~/ && echo \"a\"b\" ;  echo \"--return-$?--\"''
   \<and> backslash \<notin> set ''cd ~/ && echo \"a\"b\" ;  echo \"--return-$?--\"''
   \<and> return_code_search [] = None
   \<and> parse_result
         \<lparr>out = [],
          err = ''bash: -c: line 1: unexpected EOF while looking for matching `\"''
                @ [squote, newline],
          return_code = 2\<rparr>
       = \<lparr>out = [],
          err = ''bash: -c: line 1: unexpected EOF while looking for matching `\"''
                @ [squote, newline],
          return_code = 2\<rparr>"
  by (simp add: exec_command_def docker_init_def get_working_directory_def squote_def
      backslash_def parse_result_def sentinel_here_def sentinel_core_def Let_def)

text \<open>
  C6, amended. \<open>run\<close> rewrites the command before it composes the command line: every
  single quote becomes a double quote and every other character stays, so the
  rewritten command has no single quote. The command line is the rewritten command
  between the change of directory and the suffix that prints the sentinel, all of it
  inside the pair of single quotes of \<open>bash -c\<close>. Whenever the answer of the transport
  to that command line ends with the sentinel line for a status \<open>n\<close>, whatever output
  comes before it, \<open>run\<close> returns the status \<open>n\<close>. That the shell prints the sentinel
  line is not promised: it does not for a command whose quotes the rewriting leaves
  unbalanced.
\<close>

theorem exec_command_quotes:
  "replace_str [squote] ''\"'' command = map (\<lambda>c. if c = squote then CHR 0x22 else c) command
   \<and> squote \<notin> set (replace_str [squote] ''\"'' command)
   \<and> exec_command self command working_directory =
       ''docker exec -i '' @ container_name self @ '' bash -c '' @ [squote]
       @ ''cd '' @ get_working_directory working_directory @ '' && ''
       @ replace_str [squote] ''\"'' command
       @ (if combine_outputs self then '' 2>&1'' else [])
       @ '' ;  echo \"--return-$?--\"'' @ [squote]
   \<and> (execute w (exec_command self command working_directory) = (raw, w')
      \<and> out raw = stdout @ sentinel (decimal n) @ [newline]
      \<longrightarrow> return_code (fst (run execute self command working_directory w)) = int n)"
proof -
  have m: "replace_str [squote] ''\"'' command = map (\<lambda>c. if c = squote then CHR 0x22 else c) command"
    by (rule replace_str_char)
  have q: "squote \<notin> set (map (\<lambda>c. if c = squote then CHR 0x22 else c) command)"
    by (auto simp: squote_def)
  have r: "return_code (fst (run execute self command working_directory w)) = int n"
    if e: "execute w (exec_command self command working_directory) = (raw, w')"
      and o: "out raw = stdout @ sentinel (decimal n) @ [newline]"
  proof -
    have "return_code (parse_result raw) = int n"
      using parse_result_tail [OF decimal_nonempty, of n "[newline]" raw stdout] decimal_digits o
      by (simp add: int_of_digits_decimal)
    with e show ?thesis
      by (simp add: run_def)
  qed
  have c: "exec_command self command working_directory =
       ''docker exec -i '' @ container_name self @ '' bash -c '' @ [squote]
       @ ''cd '' @ get_working_directory working_directory @ '' && ''
       @ replace_str [squote] ''\"'' command
       @ (if combine_outputs self then '' 2>&1'' else [])
       @ '' ;  echo \"--return-$?--\"'' @ [squote]"
    by (simp add: exec_command_def Let_def)
  from m q r c show ?thesis
    by metis
qed

theorem exec_command_quotes_witness:
  "exec_command (docker_init ''0001'' ''ubuntu'' ''dyn'' 3600 False True)
       (''echo '' @ [squote] @ ''it'' @ [squote]) ''srv''
     = ''docker exec -i dyn-0001 bash -c '' @ [squote]
       @ ''cd ~/srv && echo \"it\" 2>&1 ;  echo \"--return-$?--\"'' @ [squote]
   \<and> return_code (fst (run
         (\<lambda>w c. (\<lparr>out = ''it'' @ [newline] @ ''--return-0--'' @ [newline], err = [],
                     return_code = 7\<rparr>, w))
         (docker_init ''0001'' ''ubuntu'' ''dyn'' 3600 False True)
         (''echo '' @ [squote] @ ''it'' @ [squote]) ''srv'' (0::nat))) = 0"
proof -
  let ?d = "docker_init ''0001'' ''ubuntu'' ''dyn'' 3600 False True"
  let ?c = "''echo '' @ [squote] @ ''it'' @ [squote]"
  let ?raw = "\<lparr>out = ''it'' @ [newline] @ ''--return-0--'' @ [newline], err = [], return_code = 7\<rparr>"
  let ?ex = "\<lambda>(w::nat) (c::string). (?raw, w)"
  note T = exec_command_quotes [where command = ?c and self = ?d and working_directory = "''srv''"
      and execute = ?ex and w = 0 and raw = ?raw and w' = 0 and stdout = "''it'' @ [newline]" and n = 0]
  have d: "decimal 0 = ''0''"
    by code_simp
  have e: "?ex 0 (exec_command ?d ?c ''srv'') = (?raw, 0)"
    by simp
  have o: "out ?raw = (''it'' @ [newline]) @ sentinel (decimal 0) @ [newline]"
    by (simp add: d sentinel_def)
  from T e o have r: "return_code (fst (run ?ex ?d ?c ''srv'' 0)) = int 0"
    by blast
  from T have "exec_command ?d ?c ''srv'' =
       ''docker exec -i '' @ container_name ?d @ '' bash -c '' @ [squote]
       @ ''cd '' @ get_working_directory ''srv'' @ '' && ''
       @ replace_str [squote] ''\"'' ?c
       @ (if combine_outputs ?d then '' 2>&1'' else [])
       @ '' ;  echo \"--return-$?--\"'' @ [squote]"
    by blast
  then have x: "exec_command ?d ?c ''srv''
     = ''docker exec -i dyn-0001 bash -c '' @ [squote]
       @ ''cd ~/srv && echo \"it\" 2>&1 ;  echo \"--return-$?--\"'' @ [squote]"
    by (simp add: docker_init_def get_working_directory_def squote_def)
  from x r show ?thesis
    by simp
qed

section \<open>Reading a file\<close>

text \<open>
  C7. \<open>read_file\<close> returns the output of the \<open>cat\<close> command when that command
  succeeded and the absence marker \<open>None\<close> when it did not; it has no failure of its
  own. In particular, when the sentinel line carries a status other than 0, as it does
  for a path that does not exist, the result is \<open>None\<close>, whatever was printed before
  the sentinel.
\<close>

theorem read_file_absent:
  "(run execute self (''cat '' @ get_working_directory path) [] w = (result, w') \<longrightarrow>
      (succeeded result \<longrightarrow> read_file execute self path w = (Some (out result), w'))
      \<and> (\<not> succeeded result \<longrightarrow> read_file execute self path w = (None, w')))
   \<and> (execute w (exec_command self (''cat '' @ get_working_directory path) []) = (raw, w')
      \<and> out raw = stdout @ sentinel (decimal n) @ [newline] \<and> n \<noteq> 0
      \<longrightarrow> read_file execute self path w = (None, w'))"
proof (intro conjI impI)
  assume a: "execute w (exec_command self (''cat '' @ get_working_directory path) []) = (raw, w')
      \<and> out raw = stdout @ sentinel (decimal n) @ [newline] \<and> n \<noteq> 0"
  then have "return_code (parse_result raw) = int n"
    using parse_result_tail [OF decimal_nonempty, of n "[newline]" raw stdout] decimal_digits
    by (simp add: int_of_digits_decimal)
  with a show "read_file execute self path w = (None, w')"
    by (simp add: read_file_def run_def Let_def succeeded_def)
qed (simp_all add: read_file_def Let_def)

theorem read_file_absent_witness:
  "read_file (\<lambda>w c. (\<lparr>out = ''--return-1--'' @ [newline],
                        err = ''cat: ~/missing: No such file or directory'', return_code = 0\<rparr>, w))
     (docker_init ''0001'' ''ubuntu'' ''dyn'' 3600 False False) ''missing'' (0::nat) = (None, 0)"
proof -
  let ?r = "\<lparr>out = ''--return-1--'' @ [newline],
             err = ''cat: ~/missing: No such file or directory'', return_code = 0\<rparr>"
  let ?ex = "\<lambda>(w::nat) (c::string). (?r, w)"
  let ?d = "docker_init ''0001'' ''ubuntu'' ''dyn'' 3600 False False"
  have d: "decimal (Suc 0) = ''1''"
    by code_simp
  have n: "(1::nat) \<noteq> 0"
    by simp
  have e: "?ex 0 (exec_command ?d (''cat '' @ get_working_directory ''missing'') []) = (?r, 0)"
    by simp
  have o: "out ?r = [] @ sentinel (decimal 1) @ [newline]"
    by (simp add: d sentinel_def)
  have "read_file ?ex ?d ''missing'' 0 = (None, 0)"
    using read_file_absent [of ?ex ?d "''missing''" 0 ?r 0 ?r "[]" 1] e o n by blast
  then show ?thesis .
qed

section \<open>Listing files\<close>

lemma run_world:
  "snd (run execute self command working_directory w)
     = snd (execute w (exec_command self command working_directory))"
  by (simp add: run_def split_beta)

lemma file_exist_world:
  "\<forall>c. snd (execute w c) = w \<Longrightarrow> snd (file_exist execute self path w) = w"
  by (simp add: file_exist_def Let_def split_beta run_world)

lemma directory_exist_world:
  "\<forall>c. snd (execute w c) = w \<Longrightarrow> snd (directory_exist execute self path w) = w"
  by (simp add: directory_exist_def Let_def split_beta run_world)

lemma list_files_loop_quiet:
  assumes q: "\<forall>c. snd (execute w c) = w"
  shows "list_files_loop execute self path entries result w =
           (result @ filter (\<lambda>file_path.
                fst (file_exist execute self (path_join path file_path) w)
                \<and> \<not> fst (directory_exist execute self (path_join path file_path) w)) entries, w)"
proof (induction entries arbitrary: result)
  case Nil
  show ?case by simp
next
  case (Cons file_path entries)
  obtain is_file where f: "file_exist execute self (path_join path file_path) w = (is_file, w)"
    using q file_exist_world [of execute w self "path_join path file_path"]
    by (cases "file_exist execute self (path_join path file_path) w") simp
  obtain is_dir where d: "directory_exist execute self (path_join path file_path) w = (is_dir, w)"
    using q directory_exist_world [of execute w self "path_join path file_path"]
    by (cases "directory_exist execute self (path_join path file_path) w") simp
  show ?case
    by (simp add: f d Cons.IH Let_def)
qed

text \<open>
  C8. The entries that \<open>list_files\<close> returns are the entries of the listing, in the
  order of the listing, that pass the file check and fail the directory check when
  joined to the resolved path. The checks are commands of their own, run after the
  listing; the statement is for a world \<open>w'\<close>, reached after the listing, that the
  commands run in it leave as it is, so that every check sees the same world.
\<close>

theorem list_files_filter:
  assumes l: "run execute self (''ls -m '' @ get_working_directory path) [] w = (listing, w')"
    and q: "\<forall>c. snd (execute w' c) = w'"
  shows "list_files execute self path w =
           (filter (\<lambda>file_path.
                fst (file_exist execute self (path_join (get_working_directory path) file_path) w')
                \<and> \<not> fst (directory_exist execute self
                           (path_join (get_working_directory path) file_path) w'))
              (split_str '', '' (out listing)), w')"
  using l q list_files_loop_quiet [of execute w' self "get_working_directory path"
      "split_str '', '' (out listing)" "[]"]
  by (simp add: list_files_def Let_def)

theorem list_files_filter_witness:
  "(\<forall>c. snd ((\<lambda>(w::nat) c.
        (if c = exec_command (docker_init ''0001'' ''ubuntu'' ''dyn'' 3600 False False) ''ls -m ~/srv'' []
         then \<lparr>out = ''a.txt, b'' @ [newline] @ ''--return-0--'' @ [newline], err = [], return_code = 0\<rparr>
         else if c = exec_command (docker_init ''0001'' ''ubuntu'' ''dyn'' 3600 False False)
                       ''test -f ~/srv/a.txt'' []
         then \<lparr>out = ''--return-0--'' @ [newline], err = [], return_code = 0\<rparr>
         else \<lparr>out = ''--return-1--'' @ [newline], err = [], return_code = 0\<rparr>, w)) 0 c) = 0)
   \<and> list_files (\<lambda>(w::nat) c.
        (if c = exec_command (docker_init ''0001'' ''ubuntu'' ''dyn'' 3600 False False) ''ls -m ~/srv'' []
         then \<lparr>out = ''a.txt, b'' @ [newline] @ ''--return-0--'' @ [newline], err = [], return_code = 0\<rparr>
         else if c = exec_command (docker_init ''0001'' ''ubuntu'' ''dyn'' 3600 False False)
                       ''test -f ~/srv/a.txt'' []
         then \<lparr>out = ''--return-0--'' @ [newline], err = [], return_code = 0\<rparr>
         else \<lparr>out = ''--return-1--'' @ [newline], err = [], return_code = 0\<rparr>, w))
       (docker_init ''0001'' ''ubuntu'' ''dyn'' 3600 False False) ''srv'' 0
     = ([''a.txt''], 0)"
proof -
  let ?d = "docker_init ''0001'' ''ubuntu'' ''dyn'' 3600 False False"
  let ?box = "\<lambda>(w::nat) c.
        (if c = exec_command ?d ''ls -m ~/srv'' []
         then \<lparr>out = ''a.txt, b'' @ [newline] @ ''--return-0--'' @ [newline], err = [], return_code = 0\<rparr>
         else if c = exec_command ?d ''test -f ~/srv/a.txt'' []
         then \<lparr>out = ''--return-0--'' @ [newline], err = [], return_code = 0\<rparr>
         else \<lparr>out = ''--return-1--'' @ [newline], err = [], return_code = 0\<rparr>, w)"
  let ?listing = "\<lparr>out = ''a.txt, b'' @ [newline], err = [], return_code = 0\<rparr>"
  have q: "\<forall>c. snd (?box 0 c) = 0"
    by simp
  have l: "run ?box ?d (''ls -m '' @ get_working_directory ''srv'') [] 0 = (?listing, 0)"
    by code_simp
  have f: "filter (\<lambda>file_path.
                fst (file_exist ?box ?d (path_join (get_working_directory ''srv'') file_path) 0)
                \<and> \<not> fst (directory_exist ?box ?d
                           (path_join (get_working_directory ''srv'') file_path) 0))
              (split_str '', '' (out ?listing)) = [''a.txt'']"
    by code_simp
  have "list_files ?box ?d ''srv'' 0 =
          (filter (\<lambda>file_path.
                fst (file_exist ?box ?d (path_join (get_working_directory ''srv'') file_path) 0)
                \<and> \<not> fst (directory_exist ?box ?d
                           (path_join (get_working_directory ''srv'') file_path) 0))
              (split_str '', '' (out ?listing)), 0)"
    using l q by (rule list_files_filter)
  also have "\<dots> = ([''a.txt''], 0)"
    using f by (rule arg_cong2 [OF _ refl])
  finally show ?thesis
    using q by blast
qed

section \<open>The scope of a running container\<close>

text \<open>
  C9. Entering the scope calls \<open>start\<close>. When \<open>start\<close> has succeeded and the unit of
  work run in the scope raises a failure \<open>e\<close>, the statement as a whole raises that
  same failure \<open>e\<close>, and the world it leaves is the world the unit of work left with
  \<open>stop\<close> run in it once: teardown has run, exactly once, before the failure reaches
  the caller.
\<close>

theorem scope_reraises:
  "docker_enter execute self w = (start execute self w :: ('e failure + docker) \<times> 'w)
   \<and> (start execute self w = (Inr docker :: 'e failure + docker, w1)
      \<and> body docker w1 = (Inl (e :: 'e failure), w2)
      \<longrightarrow> with_docker truthy execute self body w = (Inl e, snd (stop execute self w2)))"
proof (intro conjI impI)
  show "docker_enter execute self w = start execute self w"
    by (simp add: docker_enter_def)
next
  assume a: "start execute self w = (Inr docker :: 'e failure + docker, w1)
      \<and> body docker w1 = (Inl (e :: 'e failure), w2)"
  obtain s w3 where st: "stop execute self w2 = (s, w3)"
    by (cases "stop execute self w2")
  then have "docker_exit truthy execute self (Some e) w2 = (if truthy e then Inl e else Inr (), w3)"
    by (simp add: docker_exit_def)
  with a st show "with_docker truthy execute self body w = (Inl e, snd (stop execute self w2))"
    by (simp add: with_docker_def docker_enter_def)
qed

theorem scope_reraises_witness:
  "with_docker (\<lambda>e. True) (\<lambda>w c. (\<lparr>out = [], err = [], return_code = 0\<rparr>, w @ [c]))
     (docker_init ''0001'' ''ubuntu'' ''dyn'' 3600 False False)
     (\<lambda>docker w. (Inl (Raised ''boom''), w @ [''work''])) []
   = (Inl (Raised ''boom'') :: string failure + unit,
      [''docker run -d --name dyn-0001 ubuntu /bin/sleep 3600'', ''work'',
       ''docker kill dyn-0001'', ''docker rm dyn-0001''])"
proof -
  let ?d = "docker_init ''0001'' ''ubuntu'' ''dyn'' 3600 False False"
  let ?log = "\<lambda>(w::string list) (c::string). (\<lparr>out = [], err = [], return_code = 0\<rparr>, w @ [c])"
  let ?body = "\<lambda>(docker::docker) (w::string list).
                 (Inl (Raised ''boom'') :: string failure + unit, w @ [''work''])"
  let ?w1 = "[''docker run -d --name dyn-0001 ubuntu /bin/sleep 3600'']"
  have s: "start ?log ?d [] = (Inr ?d :: string failure + docker, ?w1)"
    by code_simp
  have b: "?body ?d ?w1 = (Inl (Raised ''boom''), ?w1 @ [''work''])"
    by simp
  have t: "snd (stop ?log ?d (?w1 @ [''work''])) =
             [''docker run -d --name dyn-0001 ubuntu /bin/sleep 3600'', ''work'',
              ''docker kill dyn-0001'', ''docker rm dyn-0001'']"
    by code_simp
  from scope_reraises [of ?log ?d "[]" ?d ?w1 ?body "Raised ''boom''" "?w1 @ [''work'']" "\<lambda>e. True"] s b
  have "with_docker (\<lambda>e. True) ?log ?d ?body [] =
          (Inl (Raised ''boom''), snd (stop ?log ?d (?w1 @ [''work''])))"
    by blast
  with t show ?thesis
    by simp
qed

end
